theory Spec2Isabelle
  imports Main "HOL-Library.Sublist"
begin

section \<open>Python strings\<close>

text \<open>
  The program is Python; its moves, outcomes and the text coming back from the language
  model are values of type \<^verbatim>\<open>str\<close>: sequences of Unicode code points. A \<open>pystr\<close> is
  the list of the code points of such a string, so \<open>[91, 93]\<close> is the string of the two
  characters \<^verbatim>\<open>[\<close> and \<^verbatim>\<open>]\<close>.
\<close>

type_synonym pystr = "nat list"

text \<open>
  \<^verbatim>\<open>str.strip()\<close> with no argument removes the leading and the trailing white space.
  The code points CPython counts as white space (its table \<^verbatim>\<open>_PyUnicode_IsWhitespace\<close>):
  U+0009..U+000D, U+001C..U+0020, U+0085, U+00A0, U+1680, U+2000..U+200A, U+2028, U+2029,
  U+202F, U+205F and U+3000.
\<close>

definition is_space :: "nat \<Rightarrow> bool" where
  "is_space c \<longleftrightarrow>
     (9 \<le> c \<and> c \<le> 13) \<or> (28 \<le> c \<and> c \<le> 32) \<or> c = 133 \<or> c = 160 \<or> c = 5760 \<or>
     (8192 \<le> c \<and> c \<le> 8202) \<or> c = 8232 \<or> c = 8233 \<or> c = 8239 \<or> c = 8287 \<or> c = 12288"

definition py_strip :: "pystr \<Rightarrow> pystr" where
  "py_strip s = rev (dropWhile is_space (rev (dropWhile is_space s)))"

text \<open>
  \<^verbatim>\<open>s.replace(old, new)\<close> replaces every occurrence of \<open>old\<close>, found from left to right
  without overlap. For an empty \<open>old\<close> Python puts \<open>new\<close> before every character and
  at the end.
\<close>

function replace_from :: "pystr \<Rightarrow> pystr \<Rightarrow> pystr \<Rightarrow> pystr" where
  "replace_from old new [] = []"
| "replace_from old new (c # cs) =
     (if old \<noteq> [] \<and> prefix old (c # cs)
      then new @ replace_from old new (drop (length old) (c # cs))
      else c # replace_from old new cs)"
  by pat_completeness auto
termination
  by (relation "measure (\<lambda>(old, new, s). length s)") (auto simp: neq_Nil_conv)

definition py_replace :: "pystr \<Rightarrow> pystr \<Rightarrow> pystr \<Rightarrow> pystr" where
  "py_replace s old new =
     (if old = [] then new @ concat (map (\<lambda>c. c # new) s) else replace_from old new s)"

section \<open>Errors and the outside world\<close>

text \<open>
  The exceptions the modelled code can let through: whatever the call to the language
  model raises (network failure, refused connection, ...), \<^verbatim>\<open>KeyError\<close> from formatting a
  template whose variable has no value, \<^verbatim>\<open>IndexError\<close> from \<^verbatim>\<open>random.choice\<close> on an
  empty sequence, and \<^verbatim>\<open>EOFError\<close> from \<^verbatim>\<open>input()\<close> at the end of the input.
\<close>

datatype py_error = LLMFailure | KeyError | IndexError | EOFError

text \<open>
  \<^verbatim>\<open>llm.invoke(text)\<close> is a call to an external service. One call is a function from
  the prompt sent to either an exception or the text of the answer
  (\<^verbatim>\<open>response.content\<close>); nothing is assumed about that function.
\<close>

type_synonym llm_call = "pystr \<Rightarrow> py_error + pystr"

text \<open>
  \<^verbatim>\<open>random.choice(seq)\<close> is \<^verbatim>\<open>seq[self._randbelow(len(seq))]\<close>, and raises \<^verbatim>\<open>IndexError\<close>
  on an empty sequence. The generator is the parameter \<open>draw\<close>, the number it produces
  for this call; \<^verbatim>\<open>_randbelow(n)\<close> lies in \<open>{0..<n}\<close>, written \<open>draw mod n\<close>.
\<close>

definition random_choice :: "'a list \<Rightarrow> nat \<Rightarrow> py_error + 'a" where
  "random_choice seq draw =
     (if seq = [] then Inl IndexError else Inr (seq ! (draw mod length seq)))"

section \<open>The data of the game\<close>

text \<open>
  The string literals of the source. The moves: \<open>gu\<close> is rock (U+30B0 U+30FC), \<open>choki\<close>
  is scissors (U+30C1 U+30E7 U+30AD), \<open>pa\<close> is paper (U+30D1 U+30FC). The results:
  \<open>res_aiko\<close> is the sentence for a tie, \<open>res_kachi\<close> for a win of the human, \<open>res_make\<close> for a
  win of the assistant. \<open>marker\<close> is the text \<^verbatim>\<open>[\<close> U+9078 U+629E \<^verbatim>\<open>:\<close> and a space that
  opens the answer format asked of the model, \<open>closer\<close> is \<^verbatim>\<open>]\<close>.
\<close>

definition gu :: pystr where "gu = [12464, 12540]"
definition choki :: pystr where "choki = [12481, 12519, 12461]"
definition pa :: pystr where "pa = [12497, 12540]"

definition res_aiko :: pystr where
  "res_aiko = [12354, 12356, 12371, 12391, 12377]"
definition res_kachi :: pystr where
  "res_kachi = [12354, 12394, 12383, 12398, 21213, 12385, 12391, 12377]"
definition res_make :: pystr where
  "res_make = [12354, 12394, 12383, 12398, 36000, 12369, 12391, 12377]"

definition marker :: pystr where "marker = [91, 36984, 25246, 58, 32]"
definition closer :: pystr where "closer = [93]"

definition choices :: "pystr list" where
  "choices = [gu, choki, pa]"

text \<open>
  An entry of the history is a dict with four keys: the round number, the human's move,
  the assistant's move and the result (in the source the keys are Japanese words).
\<close>

record round_record =
  r_round :: int
  r_you :: pystr
  r_assistant :: pystr
  r_result :: pystr

text \<open>
  The \<^verbatim>\<open>GameState\<close> typed dict, declared alike in both files. The value under the key
  \<^verbatim>\<open>history\<close> is a list object. In app.py the nodes work on that object and the model
  holds its content, a list of records. In app\_cli.py the nodes work on the list global
  to the module and never touch the value of the state, which the main loop sets to
  that same global object; there the model holds which object the state refers to
  (\<open>history_ref\<close>, below), so that what is appended to the global list is seen through
  the state as well. The type of the field is the parameter \<open>'h\<close>.
\<close>

record 'h game_state =
  user_choice :: pystr
  assistant_choice :: pystr
  result :: pystr
  history :: 'h

type_synonym page_state = "round_record list game_state"

section \<open>The prompt\<close>

text \<open>
  The prompt template is a text with one placeholder, \<^verbatim>\<open>{history}\<close>. A template is
  the list of its pieces; formatting looks every placeholder up in the keyword
  arguments and ignores a keyword argument that the template does not name.
  \<open>prompt_head\<close> is the text of the template before the placeholder (the first line,
  which tells the model it is the opponent, and the label of the history),
  \<open>prompt_tail\<close> the text after it (the line that names the three moves and the line
  that asks for the answer format). Both files call
  \<^verbatim>\<open>prompt.format(user_choice=..., history=...)\<close>. The template is a chat template made
  of one message of the human role, and its \<^verbatim>\<open>format\<close> gives the text of that message
  behind the label of the role, \<open>human_label\<close> (the word \<^verbatim>\<open>Human\<close>, a colon and a space).
\<close>

datatype piece = Lit pystr | Var string

fun format_piece :: "(string \<rightharpoonup> pystr) \<Rightarrow> piece \<Rightarrow> py_error + pystr" where
  "format_piece kw (Lit s) = Inr s"
| "format_piece kw (Var v) = (case kw v of None \<Rightarrow> Inl KeyError | Some s \<Rightarrow> Inr s)"

fun format_pieces :: "(string \<rightharpoonup> pystr) \<Rightarrow> piece list \<Rightarrow> py_error + pystr" where
  "format_pieces kw [] = Inr []"
| "format_pieces kw (p # ps) =
     (case format_piece kw p of
        Inl e \<Rightarrow> Inl e
      | Inr s \<Rightarrow> (case format_pieces kw ps of Inl e \<Rightarrow> Inl e | Inr t \<Rightarrow> Inr (s @ t)))"

definition prompt_head :: pystr where
  "prompt_head =
     [10, 32, 32, 32, 32, 12354, 12394, 12383, 12399, 12376, 12419, 12435, 12369, 12435,
      12398, 23550, 25126, 30456, 25163, 12391, 12377, 12290, 10, 32, 32, 32, 32, 36942,
      21435, 12398, 23653, 27508, 58, 32]"

definition prompt_tail :: pystr where
  "prompt_tail =
     [10, 32, 32, 32, 32, 36984, 25246, 32930, 58, 32, 12464, 12540, 12289, 12481, 12519,
      12461, 12289, 12497, 12540, 10, 32, 32, 32, 32, 12518, 12540, 12470, 12540, 12398,
      20670, 21521, 12434, 32771, 24942, 12375, 12289, 21213, 12388, 21487, 33021, 24615,
      12434, 39640, 12417, 12427, 25163, 12434, 12300, 91, 36984, 25246, 58, 32, 25163,
      93, 12301, 12398, 24418, 24335, 12391, 36820, 12375, 12390, 12367, 12384, 12373,
      12356, 12290, 10, 32, 32, 32, 32]"

definition prompt :: "piece list" where
  "prompt = [Lit prompt_head, Var ''history'', Lit prompt_tail]"

definition human_label :: pystr where
  "human_label = [72, 117, 109, 97, 110, 58, 32]"

definition prompt_format :: "pystr \<Rightarrow> pystr \<Rightarrow> py_error + pystr" where
  "prompt_format user_choice_arg history_arg =
     (case format_pieces [''user_choice'' \<mapsto> user_choice_arg, ''history'' \<mapsto> history_arg]
             prompt of
        Inl e \<Rightarrow> Inl e
      | Inr message \<Rightarrow> Inr (human_label @ message))"

section \<open>The two nodes of the workflow (app.py)\<close>

text \<open>
  \<open>extract_candidate\<close> is the expression that takes the candidate move out of the answer:
  \<^verbatim>\<open>response.content.strip().replace(marker, "").replace("]", "")\<close>.
\<close>

definition extract_candidate :: "pystr \<Rightarrow> pystr" where
  "extract_candidate content = py_replace (py_replace (py_strip content) marker []) closer []"

text \<open>
  \<open>choose_assistant_move\<close>: the history is rendered by Python's \<^verbatim>\<open>str\<close> (the parameter
  \<open>str_of\<close>), the prompt is formatted and sent, the candidate is extracted, and a
  candidate that is not in \<open>choices\<close> is replaced by \<^verbatim>\<open>random.choice(choices)\<close>.
\<close>

definition choose_assistant_move ::
  "(round_record list \<Rightarrow> pystr) \<Rightarrow> llm_call \<Rightarrow> nat \<Rightarrow> page_state \<Rightarrow> py_error + page_state" where
  "choose_assistant_move str_of llm draw state =
     (let current_history = history state in
      case prompt_format (user_choice state) (str_of current_history) of
        Inl e \<Rightarrow> Inl e
      | Inr text \<Rightarrow>
          (case llm text of
             Inl e \<Rightarrow> Inl e
           | Inr content \<Rightarrow>
               (let candidate = extract_candidate content in
                if candidate \<notin> set choices
                then (case random_choice choices draw of
                        Inl e \<Rightarrow> Inl e
                      | Inr c \<Rightarrow> Inr (state\<lparr>assistant_choice := c\<rparr>))
                else Inr (state\<lparr>assistant_choice := candidate\<rparr>))))"

text \<open>
  \<open>determine_result_and_update\<close>: the result by the chain of comparisons of the source
  (\<open>judge\<close>, the same \<^verbatim>\<open>if\<close>/\<^verbatim>\<open>elif\<close>/\<^verbatim>\<open>else\<close> in both files), stored in the state, and
  one dict appended to the history of the state.
\<close>

definition judge :: "pystr \<Rightarrow> pystr \<Rightarrow> pystr" where
  "judge u a =
     (if u = a then res_aiko
      else if (u = gu \<and> a = choki) \<or> (u = choki \<and> a = pa) \<or> (u = pa \<and> a = gu) then res_kachi
      else res_make)"

definition determine_result_and_update :: "page_state \<Rightarrow> page_state" where
  "determine_result_and_update state =
     (let u = user_choice state;
          a = assistant_choice state;
          res = judge u a;
          state1 = state\<lparr>result := res\<rparr>
      in state1\<lparr>history := history state1 @
           [\<lparr>r_round = int (length (history state1)) + 1, r_you = u, r_assistant = a,
             r_result = res\<rparr>]\<rparr>)"

text \<open>
  The compiled graph runs the first node, then the second, then stops; an exception of
  the first node ends the run.
\<close>

definition app_invoke ::
  "(round_record list \<Rightarrow> pystr) \<Rightarrow> llm_call \<Rightarrow> nat \<Rightarrow> page_state \<Rightarrow> py_error + page_state" where
  "app_invoke str_of llm draw state =
     (case choose_assistant_move str_of llm draw state of
        Inl e \<Rightarrow> Inl e
      | Inr state1 \<Rightarrow> Inr (determine_result_and_update state1))"

text \<open>
  One run of the page (app.py) with a move chosen: the state is built from the move and
  the history of the session, with empty strings for the two fields not yet known, the
  graph runs, and the history of the final state is the history of the session from then
  on. \<open>page_rounds\<close> is a sequence of such runs, one per chosen move, each with its own
  call of the model and its own draw.
\<close>

definition page_round ::
  "(round_record list \<Rightarrow> pystr) \<Rightarrow> llm_call \<Rightarrow> nat \<Rightarrow> pystr \<Rightarrow> round_record list
     \<Rightarrow> py_error + round_record list" where
  "page_round str_of llm draw u session_history =
     (case app_invoke str_of llm draw
             \<lparr>user_choice = u, assistant_choice = [], result = [], history = session_history\<rparr> of
        Inl e \<Rightarrow> Inl e
      | Inr state \<Rightarrow> Inr (history state))"

fun page_rounds ::
  "(round_record list \<Rightarrow> pystr) \<Rightarrow> (pystr \<times> llm_call \<times> nat) list \<Rightarrow> round_record list
     \<Rightarrow> py_error + round_record list" where
  "page_rounds str_of [] h = Inr h"
| "page_rounds str_of ((u, llm, draw) # rest) h =
     (case page_round str_of llm draw u h of
        Inl e \<Rightarrow> Inl e
      | Inr h' \<Rightarrow> page_rounds str_of rest h')"

section \<open>The command-line variant (app\_cli.py)\<close>

text \<open>
  Here the history is a list global to the module, read and extended in place through
  two tools; the functions below take its content as the argument \<open>glob\<close> and return
  the new content when they change it. \<open>added\<close> is the sentence \<open>add_to_history\<close>
  returns. The tools declare their arguments as strings, and a call with another kind
  of value is refused by the tool; the arguments here are strings by their type.

  The value of the state under \<^verbatim>\<open>history\<close> is a reference to a list object: either the
  global list itself (\<open>Module_history\<close>, what the main loop passes) or some other list,
  which this code neither reads nor changes and which is given by its content.
  \<open>read_history glob r\<close> is the content seen through the reference \<open>r\<close> when the
  global list holds \<open>glob\<close>.
\<close>

datatype history_ref = Module_history | Other_list "round_record list"

type_synonym cli_state = "history_ref game_state"

fun read_history :: "round_record list \<Rightarrow> history_ref \<Rightarrow> round_record list" where
  "read_history glob Module_history = glob"
| "read_history glob (Other_list l) = l"

definition added :: pystr where
  "added = [23653, 27508, 12395, 36861, 21152, 12375, 12414, 12375, 12383]"

definition get_history :: "round_record list \<Rightarrow> round_record list" where
  "get_history glob = glob"

definition add_to_history ::
  "round_record list \<Rightarrow> pystr \<Rightarrow> pystr \<Rightarrow> pystr \<Rightarrow> round_record list \<times> pystr" where
  "add_to_history glob user_choice_arg assistant_choice_arg result_arg =
     (glob @ [\<lparr>r_round = int (length glob) + 1, r_you = user_choice_arg,
               r_assistant = assistant_choice_arg, r_result = result_arg\<rparr>],
      added)"

definition choose_assistant_move_cli ::
  "(round_record list \<Rightarrow> pystr) \<Rightarrow> llm_call \<Rightarrow> nat \<Rightarrow> round_record list \<Rightarrow> cli_state
     \<Rightarrow> py_error + cli_state" where
  "choose_assistant_move_cli str_of llm draw glob state =
     (let current_history = get_history glob in
      case prompt_format (user_choice state) (str_of current_history) of
        Inl e \<Rightarrow> Inl e
      | Inr text \<Rightarrow>
          (case llm text of
             Inl e \<Rightarrow> Inl e
           | Inr content \<Rightarrow>
               (let candidate = extract_candidate content in
                if candidate \<notin> set choices
                then (case random_choice choices draw of
                        Inl e \<Rightarrow> Inl e
                      | Inr c \<Rightarrow> Inr (state\<lparr>assistant_choice := c\<rparr>))
                else Inr (state\<lparr>assistant_choice := candidate\<rparr>))))"

definition determine_result_and_update_cli ::
  "round_record list \<Rightarrow> cli_state \<Rightarrow> round_record list \<times> cli_state" where
  "determine_result_and_update_cli glob state =
     (let u = user_choice state;
          a = assistant_choice state;
          res = judge u a;
          state1 = state\<lparr>result := res\<rparr>;
          (glob1, msg) = add_to_history glob u a res
      in (glob1, state1))"

definition cli_invoke ::
  "(round_record list \<Rightarrow> pystr) \<Rightarrow> llm_call \<Rightarrow> nat \<Rightarrow> round_record list \<Rightarrow> cli_state
     \<Rightarrow> py_error + round_record list \<times> cli_state" where
  "cli_invoke str_of llm draw glob state =
     (case choose_assistant_move_cli str_of llm draw glob state of
        Inl e \<Rightarrow> Inl e
      | Inr state1 \<Rightarrow> Inr (determine_result_and_update_cli glob state1))"

text \<open>
  The main loop reads a line; the word \<open>yameru\<close> ends the game, a line that is not in
  \<open>choices\<close> is refused and the loop goes on, any other line is played. The input is
  the list of the lines typed, each with the call of the model and the draw that a round
  played on that line would meet; at the end of the input \<^verbatim>\<open>input()\<close> raises
  \<^verbatim>\<open>EOFError\<close>. The state passed to the graph has the two keys \<^verbatim>\<open>user_choice\<close> and
  \<^verbatim>\<open>history\<close>, the latter being the global list itself; the two others are written
  before they are read, and start empty here.
\<close>

definition yameru :: pystr where "yameru = [12420, 12417, 12427]"

fun main_loop ::
  "(round_record list \<Rightarrow> pystr) \<Rightarrow> (pystr \<times> llm_call \<times> nat) list \<Rightarrow> round_record list
     \<Rightarrow> py_error + round_record list" where
  "main_loop str_of [] glob = Inl EOFError"
| "main_loop str_of ((line, llm, draw) # rest) glob =
     (if line = yameru then Inr glob
      else if line \<notin> set choices then main_loop str_of rest glob
      else (case cli_invoke str_of llm draw glob
                   \<lparr>user_choice = line, assistant_choice = [], result = [],
                     history = Module_history\<rparr> of
              Inl e \<Rightarrow> Inl e
            | Inr (glob1, state) \<Rightarrow> main_loop str_of rest glob1))"

section \<open>The words of the specification\<close>

text \<open>
  The specification speaks of the moves ROCK, SCISSORS and PAPER (\<open>gu\<close>, \<open>choki\<close>,
  \<open>pa\<close>) and of the outcomes TIE, HUMAN\_WIN and OPPONENT\_WIN (\<open>res_aiko\<close>,
  \<open>res_kachi\<close>, \<open>res_make\<close>). Its relation: ROCK beats SCISSORS, SCISSORS beats PAPER,
  PAPER beats ROCK.
\<close>

definition beats :: "pystr \<Rightarrow> pystr \<Rightarrow> bool" where
  "beats x y \<longleftrightarrow> (x, y) \<in> {(gu, choki), (choki, pa), (pa, gu)}"

text \<open>
  The extraction as the specification words it: strip the surrounding white space, then
  remove the leading marker and the trailing closing marker.
\<close>

definition remove_leading :: "pystr \<Rightarrow> pystr \<Rightarrow> pystr" where
  "remove_leading m s = (if prefix m s then drop (length m) s else s)"

definition remove_trailing :: "pystr \<Rightarrow> pystr \<Rightarrow> pystr" where
  "remove_trailing m s = (if suffix m s then take (length s - length m) s else s)"

definition extract_spec :: "pystr \<Rightarrow> pystr" where
  "extract_spec content = remove_trailing closer (remove_leading marker (py_strip content))"

text \<open>
  For the examples: a call of the model that answers the same text whatever the prompt,
  and the text Python's \<^verbatim>\<open>str\<close> gives for the empty list, \<^verbatim>\<open>[]\<close> (the examples run on
  the empty history).
\<close>

definition answering :: "pystr \<Rightarrow> llm_call" where
  "answering content p = Inr content"

definition str_of_empty :: "round_record list \<Rightarrow> pystr" where
  "str_of_empty h = [91, 93]"

text \<open>
  The invariant of the history, as the specification states it: the moves of every
  record are legal, and the round numbers are 1, 2, ... in order.
\<close>

definition legal_records :: "round_record list \<Rightarrow> bool" where
  "legal_records h \<longleftrightarrow> (\<forall>r \<in> set h. r_you r \<in> set choices \<and> r_assistant r \<in> set choices)"

definition well_numbered :: "round_record list \<Rightarrow> bool" where
  "well_numbered h \<longleftrightarrow> map r_round h = map int [1..<Suc (length h)]"

section \<open>Facts about the strings, the prompt and the two nodes\<close>

lemma lits_distinct:
  "gu \<noteq> choki" "gu \<noteq> pa" "choki \<noteq> pa" "choki \<noteq> gu" "pa \<noteq> gu" "pa \<noteq> choki"
  "res_aiko \<noteq> res_kachi" "res_aiko \<noteq> res_make" "res_kachi \<noteq> res_make"
  "res_kachi \<noteq> res_aiko" "res_make \<noteq> res_aiko" "res_make \<noteq> res_kachi"
  by (simp_all add: gu_def choki_def pa_def res_aiko_def res_kachi_def res_make_def)

lemma set_choices: "set choices = {gu, choki, pa}"
  by (simp add: choices_def)

lemma random_choice_in: "seq \<noteq> [] \<Longrightarrow> \<exists>c. random_choice seq draw = Inr c \<and> c \<in> set seq"
  by (simp add: random_choice_def)

lemma random_choice_choices: "random_choice choices draw = Inr (choices ! (draw mod 3))"
  by (simp add: random_choice_def choices_def)

lemma nth_choices_legal: "choices ! (draw mod 3) \<in> set choices"
proof -
  have "draw mod 3 < length choices" by (simp add: choices_def)
  then show ?thesis by (rule nth_mem)
qed

lemma prompt_format_eq:
  "prompt_format u h = Inr (human_label @ prompt_head @ h @ prompt_tail)"
  by (simp add: prompt_format_def prompt_def)

lemma replace_from_absent:
  "old \<noteq> [] \<Longrightarrow> hd old \<notin> set s \<Longrightarrow> replace_from old new s = s"
  by (induction s) (auto simp: prefix_def neq_Nil_conv)

lemma replace_closer: "py_replace s closer [] = filter (\<lambda>c. c \<noteq> 93) s"
proof -
  have "replace_from [93] [] s = filter (\<lambda>c. c \<noteq> 93) s"
    by (induction s) (auto simp: prefix_def)
  then show ?thesis by (simp add: py_replace_def closer_def)
qed

lemma replace_marker_absent: "91 \<notin> set s \<Longrightarrow> py_replace s marker [] = s"
  using replace_from_absent [of marker s "[]"] by (simp add: py_replace_def marker_def)

lemma replace_marker_prefix: "py_replace (marker @ x) marker [] = py_replace x marker []"
  by (simp add: py_replace_def marker_def)

lemma replace_marker_interior:
  "91 \<notin> set x \<Longrightarrow> replace_from marker [] (x @ marker @ y) = x @ replace_from marker [] y"
proof (induction x)
  case Nil
  then show ?case by (simp add: marker_def)
next
  case (Cons c x)
  then have "\<not> prefix marker (c # x @ marker @ y)" by (auto simp: marker_def)
  with Cons show ?case by simp
qed

lemma extract_candidate_filter:
  "extract_candidate content = filter (\<lambda>c. c \<noteq> 93) (py_replace (py_strip content) marker [])"
  by (simp add: extract_candidate_def replace_closer)

lemma legal_no_brackets: "m \<in> set choices \<Longrightarrow> 91 \<notin> set m \<and> 93 \<notin> set m"
  by (auto simp: choices_def gu_def choki_def pa_def)

lemma extract_candidate_bare:
  assumes "py_strip content \<in> set choices"
  shows "extract_candidate content = py_strip content"
proof -
  from assms have nb: "91 \<notin> set (py_strip content)" "93 \<notin> set (py_strip content)"
    using legal_no_brackets by blast+
  have "filter (\<lambda>c. c \<noteq> 93) (py_strip content) = py_strip content"
    using nb(2) by (auto simp: filter_id_conv)
  then show ?thesis
    by (simp add: extract_candidate_filter replace_marker_absent [OF nb(1)])
qed

lemma choose_assistant_move_eq:
  "choose_assistant_move str_of llm draw state =
     (case llm (human_label @ prompt_head @ str_of (history state) @ prompt_tail) of
        Inl e \<Rightarrow> Inl e
      | Inr content \<Rightarrow>
          Inr (state\<lparr>assistant_choice :=
                 if extract_candidate content \<in> set choices then extract_candidate content
                 else choices ! (draw mod 3)\<rparr>))"
  by (simp add: choose_assistant_move_def prompt_format_eq random_choice_choices Let_def
           split: sum.splits)

lemma choose_assistant_move_cli_eq:
  "choose_assistant_move_cli str_of llm draw glob state =
     (case llm (human_label @ prompt_head @ str_of glob @ prompt_tail) of
        Inl e \<Rightarrow> Inl e
      | Inr content \<Rightarrow>
          Inr (state\<lparr>assistant_choice :=
                 if extract_candidate content \<in> set choices then extract_candidate content
                 else choices ! (draw mod 3)\<rparr>))"
  by (simp add: choose_assistant_move_cli_def get_history_def prompt_format_eq
           random_choice_choices Let_def split: sum.splits)

lemma determine_result_and_update_eq:
  "determine_result_and_update state =
     state\<lparr>result := judge (user_choice state) (assistant_choice state),
           history := history state @
             [\<lparr>r_round = int (length (history state)) + 1, r_you = user_choice state,
               r_assistant = assistant_choice state,
               r_result = judge (user_choice state) (assistant_choice state)\<rparr>]\<rparr>"
  by (simp add: determine_result_and_update_def Let_def)

lemma determine_result_and_update_cli_eq:
  "determine_result_and_update_cli glob state =
     (glob @ [\<lparr>r_round = int (length glob) + 1, r_you = user_choice state,
               r_assistant = assistant_choice state,
               r_result = judge (user_choice state) (assistant_choice state)\<rparr>],
      state\<lparr>result := judge (user_choice state) (assistant_choice state)\<rparr>)"
  by (simp add: determine_result_and_update_cli_def add_to_history_def Let_def)

lemma judge_legal:
  assumes "u \<in> set choices" "a \<in> set choices"
  shows "(judge u a = res_aiko \<longleftrightarrow> u = a)"
    and "(judge u a = res_kachi \<longleftrightarrow> beats u a)"
    and "(judge u a = res_make \<longleftrightarrow> u \<noteq> a \<and> \<not> beats u a)"
  using assms lits_distinct by (auto simp: judge_def beats_def set_choices)


lemma judge_illegal:
  "u \<notin> set choices \<or> a \<notin> set choices \<Longrightarrow> judge u a = (if u = a then res_aiko else res_make)"
  by (auto simp: judge_def set_choices)

lemma remove_trailing_closer:
  "s = remove_trailing closer s \<or> s = remove_trailing closer s @ [93]"
  by (auto simp: remove_trailing_def closer_def suffix_def)

lemma remove_leading_marker:
  "s = remove_leading marker s \<and> \<not> prefix marker s \<or> s = marker @ remove_leading marker s"
  by (auto simp: remove_leading_def prefix_def)

lemma subseq_replace_from: "subseq (replace_from old [] s) s"
proof (induction old "[] :: pystr" s rule: replace_from.induct)
  case (1 old)
  then show ?case by simp
next
  case (2 old c cs)
  show ?case
  proof (cases "old \<noteq> [] \<and> prefix old (c # cs)")
    case True
    then have "subseq (replace_from old [] (drop (length old) (c # cs))) (drop (length old) (c # cs))"
      using 2 by blast
    moreover have "subseq (drop (length old) (c # cs)) (c # cs)"
      by (metis append_take_drop_id list_emb_append2 subseq_order.order_refl)
    ultimately have "subseq (replace_from old [] (drop (length old) (c # cs))) (c # cs)"
      using subseq_order.order_trans by blast
    with True show ?thesis by simp
  next
    case False
    then have "subseq (replace_from old [] cs) cs" using 2 by blast
    with False show ?thesis by auto
  qed
qed

lemma subseq_py_replace: "old \<noteq> [] \<Longrightarrow> subseq (py_replace s old []) s"
  by (simp add: py_replace_def subseq_replace_from)

lemma extract_agrees:
  assumes "91 \<notin> set (extract_spec content)" and "93 \<notin> set (extract_spec content)"
  shows "extract_candidate content = extract_spec content"
proof -
  define t where "t = py_strip content"
  define t' where "t' = remove_leading marker t"
  define body where "body = remove_trailing closer t'"
  have body: "body = extract_spec content"
    by (simp add: body_def t'_def t_def extract_spec_def)
  have t': "t' = body \<or> t' = body @ [93]"
    unfolding body_def by (rule remove_trailing_closer)
  with assms body have no91: "91 \<notin> set t'" by auto
  have "py_replace t marker [] = py_replace t' marker []"
    using remove_leading_marker [of t] replace_marker_prefix [of t']
    unfolding t'_def by metis
  then have "py_replace t marker [] = t'"
    using replace_marker_absent [OF no91] by simp
  then have "extract_candidate content = filter (\<lambda>c. c \<noteq> 93) t'"
    by (simp add: extract_candidate_filter t_def)
  also have "\<dots> = body"
    using t' assms(2) body by (auto simp: filter_id_conv)
  finally show ?thesis using body by simp
qed

lemma page_round_step:
  assumes "llm (human_label @ prompt_head @ str_of h @ prompt_tail) = Inr content"
  shows "\<exists>a. a \<in> set choices \<and>
           page_round str_of llm draw u h =
             Inr (h @ [\<lparr>r_round = int (length h) + 1, r_you = u, r_assistant = a,
                        r_result = judge u a\<rparr>])"
  using assms nth_choices_legal [of draw]
  by (auto simp: page_round_def app_invoke_def choose_assistant_move_eq
        determine_result_and_update_eq)

lemma cli_invoke_step:
  assumes "llm (human_label @ prompt_head @ str_of glob @ prompt_tail) = Inr content"
  shows "\<exists>a. a \<in> set choices \<and>
           cli_invoke str_of llm draw glob
               \<lparr>user_choice = u, assistant_choice = [], result = [],
                 history = Module_history\<rparr> =
             Inr (glob @ [\<lparr>r_round = int (length glob) + 1, r_you = u, r_assistant = a,
                           r_result = judge u a\<rparr>],
                  \<lparr>user_choice = u, assistant_choice = a, result = judge u a,
                    history = Module_history\<rparr>)"
  using assms nth_choices_legal [of draw]
  by (auto simp: cli_invoke_def choose_assistant_move_cli_eq determine_result_and_update_cli_eq)

lemma well_numbered_snoc:
  "well_numbered h \<Longrightarrow>
   well_numbered (h @ [\<lparr>r_round = int (length h) + 1, r_you = u, r_assistant = a, r_result = r\<rparr>])"
  by (simp add: well_numbered_def)

lemma legal_records_snoc:
  "legal_records h \<Longrightarrow> u \<in> set choices \<Longrightarrow> a \<in> set choices \<Longrightarrow>
   legal_records (h @ [\<lparr>r_round = n, r_you = u, r_assistant = a, r_result = r\<rparr>])"
  by (simp add: legal_records_def)

lemma page_rounds_invariant:
  assumes "\<forall>(u, llm, draw) \<in> set rs. u \<in> set choices \<and> (\<forall>p. \<exists>c. llm p = Inr c)"
    and "well_numbered h" and "legal_records h"
  shows "\<exists>h'. page_rounds str_of rs h = Inr h' \<and> length h' = length h + length rs
              \<and> take (length h) h' = h \<and> well_numbered h' \<and> legal_records h'"
  using assms
proof (induction rs arbitrary: h)
  case Nil
  then show ?case by simp
next
  case (Cons x rs)
  obtain u llm draw where x: "x = (u, llm, draw)" by (cases x)
  from Cons.prems(1) x have u: "u \<in> set choices" and "\<forall>p. \<exists>c. llm p = Inr c"
    by auto
  then obtain content where c: "llm (human_label @ prompt_head @ str_of h @ prompt_tail) = Inr content"
    by blast
  from page_round_step [where llm = llm and str_of = str_of and h = h, OF c] obtain a where a: "a \<in> set choices"
    and step: "page_round str_of llm draw u h =
                 Inr (h @ [\<lparr>r_round = int (length h) + 1, r_you = u, r_assistant = a,
                            r_result = judge u a\<rparr>])"
    by blast
  let ?h1 = "h @ [\<lparr>r_round = int (length h) + 1, r_you = u, r_assistant = a,
                   r_result = judge u a\<rparr>]"
  have "well_numbered ?h1" using Cons.prems(2) by (rule well_numbered_snoc)
  moreover have "legal_records ?h1" using Cons.prems(3) u a by (rule legal_records_snoc)
  moreover have "\<forall>(u, llm, draw) \<in> set rs. u \<in> set choices \<and> (\<forall>p. \<exists>c. llm p = Inr c)"
    using Cons.prems(1) by simp
  ultimately obtain h' where h': "page_rounds str_of rs ?h1 = Inr h'"
    "length h' = length ?h1 + length rs" "take (length ?h1) h' = ?h1"
    "well_numbered h'" "legal_records h'"
    using Cons.IH [of ?h1] by blast
  have "take (length h) h' = take (length h) (take (length ?h1) h')"
    by (simp add: min_def)
  also have "\<dots> = h" using h'(3) by simp
  finally have "take (length h) h' = h" .
  with h' step x show ?case by simp
qed

lemma main_loop_invariant:
  assumes "\<forall>(line, llm, draw) \<in> set ls. line \<noteq> yameru \<and> (\<forall>p. \<exists>c. llm p = Inr c)"
    and "well_numbered glob" and "legal_records glob"
  shows "\<exists>h'. main_loop str_of (ls @ (yameru, llm0, draw0) # later) glob = Inr h'
              \<and> length h' = length glob + length (filter (\<lambda>x. fst x \<in> set choices) ls)
              \<and> take (length glob) h' = glob \<and> well_numbered h' \<and> legal_records h'"
  using assms
proof (induction ls arbitrary: glob)
  case Nil
  then show ?case by simp
next
  case (Cons x ls)
  obtain line llm draw where x: "x = (line, llm, draw)" by (cases x)
  from Cons.prems(1) x have ny: "line \<noteq> yameru" and tot: "\<forall>p. \<exists>c. llm p = Inr c"
    by auto
  have rest: "\<forall>(line, llm, draw) \<in> set ls. line \<noteq> yameru \<and> (\<forall>p. \<exists>c. llm p = Inr c)"
    using Cons.prems(1) by simp
  show ?case
  proof (cases "line \<in> set choices")
    case False
    with ny x Cons.IH [OF rest Cons.prems(2) Cons.prems(3)] show ?thesis by simp
  next
    case True
    from tot obtain content where
      c: "llm (human_label @ prompt_head @ str_of glob @ prompt_tail) = Inr content"
      by blast
    from cli_invoke_step [where llm = llm and str_of = str_of and glob = glob, OF c] obtain a where a: "a \<in> set choices"
      and step: "cli_invoke str_of llm draw glob
                   \<lparr>user_choice = line, assistant_choice = [], result = [],
                     history = Module_history\<rparr> =
                 Inr (glob @ [\<lparr>r_round = int (length glob) + 1, r_you = line, r_assistant = a,
                               r_result = judge line a\<rparr>],
                      \<lparr>user_choice = line, assistant_choice = a, result = judge line a,
                        history = Module_history\<rparr>)"
      by blast
    let ?g1 = "glob @ [\<lparr>r_round = int (length glob) + 1, r_you = line, r_assistant = a,
                        r_result = judge line a\<rparr>]"
    have "well_numbered ?g1" using Cons.prems(2) by (rule well_numbered_snoc)
    moreover have "legal_records ?g1" using Cons.prems(3) True a by (rule legal_records_snoc)
    ultimately obtain h' where
      h': "main_loop str_of (ls @ (yameru, llm0, draw0) # later) ?g1 = Inr h'"
      "length h' = length ?g1 + length (filter (\<lambda>x. fst x \<in> set choices) ls)"
      "take (length ?g1) h' = ?g1" "well_numbered h'" "legal_records h'"
      using Cons.IH [OF rest, of ?g1] by blast
    have "take (length glob) h' = take (length glob) (take (length ?g1) h')"
      by (simp add: min_def)
    also have "\<dots> = glob" using h'(3) by simp
    finally have "take (length glob) h' = glob" .
    with h' step x ny True show ?thesis by simp
  qed
qed

section \<open>The outcome table\<close>

text \<open>
  Claim C1. For every pair of legal moves the resolver stores the tie sentence exactly
  when the two moves are equal, the sentence for a win of the human exactly when the
  human's move beats the assistant's (rock beats scissors, scissors beats paper, paper
  beats rock) and the sentence for a loss in every other case; the command-line variant
  stores the same result for the same two moves. In particular rock against scissors is
  a win, scissors against rock a loss, paper against paper a tie.
\<close>

theorem resolver_outcome_table:
  assumes "user_choice state \<in> set choices" and "assistant_choice state \<in> set choices"
  shows "(result (determine_result_and_update state) = res_aiko
            \<longleftrightarrow> user_choice state = assistant_choice state)
       \<and> (result (determine_result_and_update state) = res_kachi
            \<longleftrightarrow> beats (user_choice state) (assistant_choice state))
       \<and> (result (determine_result_and_update state) = res_make
            \<longleftrightarrow> user_choice state \<noteq> assistant_choice state
                \<and> \<not> beats (user_choice state) (assistant_choice state))
       \<and> result (snd (determine_result_and_update_cli glob
              \<lparr>user_choice = user_choice state, assistant_choice = assistant_choice state,
                result = result state, history = href\<rparr>))
            = result (determine_result_and_update state)
       \<and> result (determine_result_and_update (state\<lparr>user_choice := gu, assistant_choice := choki\<rparr>))
            = res_kachi
       \<and> result (determine_result_and_update (state\<lparr>user_choice := choki, assistant_choice := gu\<rparr>))
            = res_make
       \<and> result (determine_result_and_update (state\<lparr>user_choice := pa, assistant_choice := pa\<rparr>))
            = res_aiko"
proof -
  have conc: "judge gu choki = res_kachi" "judge choki gu = res_make" "judge pa pa = res_aiko"
    using lits_distinct by (simp_all add: judge_def)
  show ?thesis
    using judge_legal [OF assms] conc
    by (simp add: determine_result_and_update_eq determine_result_and_update_cli_eq)
qed

theorem resolver_outcome_table_witness:
  "result (determine_result_and_update
     \<lparr>user_choice = gu, assistant_choice = choki, result = [], history = []\<rparr>) = res_kachi
   \<and> beats gu choki"
  using resolver_outcome_table
    [where state = "\<lparr>user_choice = gu, assistant_choice = choki, result = [], history = []\<rparr>"
       and glob = "[]" and href = Module_history]
  by (simp add: set_choices beats_def)


section \<open>The move of the assistant\<close>

text \<open>
  Claim C2. Whatever the history and whatever text the model answers (empty, garbage, a
  synonym, another language), the proposer ends without an exception and the move it
  stores is one of the three legal moves: the candidate is stored only after the
  membership test. The same holds for the command-line variant.
\<close>

theorem proposer_returns_legal_move:
  assumes "llm (human_label @ prompt_head @ str_of (history state) @ prompt_tail) = Inr content"
    and "llm_cli (human_label @ prompt_head @ str_of glob @ prompt_tail) = Inr content"
  shows "(\<exists>c. c \<in> set choices
              \<and> choose_assistant_move str_of llm draw state = Inr (state\<lparr>assistant_choice := c\<rparr>))
       \<and> (\<exists>c. c \<in> set choices
              \<and> choose_assistant_move_cli str_of llm_cli draw glob cstate
                  = Inr (cstate\<lparr>assistant_choice := c\<rparr>))"
  using assms nth_choices_legal [of draw]
  by (auto simp: choose_assistant_move_eq choose_assistant_move_cli_eq)

theorem proposer_returns_legal_move_witness:
  "\<exists>c. c \<in> set choices
      \<and> choose_assistant_move str_of_empty (answering []) 0
           \<lparr>user_choice = gu, assistant_choice = [], result = [], history = []\<rparr>
         = Inr \<lparr>user_choice = gu, assistant_choice = c, result = [], history = []\<rparr>"
  using proposer_returns_legal_move
    [where llm = "answering []" and str_of = str_of_empty and content = "[]"
       and state = "\<lparr>user_choice = gu, assistant_choice = [], result = [], history = []\<rparr>"
       and llm_cli = "answering []" and glob = "[]" and draw = 0
       and cstate = "\<lparr>user_choice = gu, assistant_choice = [], result = [],
                       history = Module_history\<rparr>"]
  by (simp add: answering_def)

text \<open>
  Claim C6. When the candidate taken out of the answer is not one of the three legal
  moves, it is dropped and the move stored is \<^verbatim>\<open>random.choice(choices)\<close>: the element of
  \<open>choices\<close> at the index the generator gives below three. The three indices give the
  three legal moves, each once, so an index uniform on \<open>{0, 1, 2}\<close> is a move uniform
  on the legal moves. The proposer returns normally: nothing is raised to the caller.
\<close>

theorem fallback_draws_from_choices:
  assumes "llm (human_label @ prompt_head @ str_of (history state) @ prompt_tail) = Inr content"
    and "llm_cli (human_label @ prompt_head @ str_of glob @ prompt_tail) = Inr content"
    and "extract_candidate content \<notin> set choices"
  shows "choose_assistant_move str_of llm draw state
           = Inr (state\<lparr>assistant_choice := choices ! (draw mod 3)\<rparr>)
       \<and> choose_assistant_move_cli str_of llm_cli draw glob cstate
           = Inr (cstate\<lparr>assistant_choice := choices ! (draw mod 3)\<rparr>)
       \<and> random_choice choices draw = Inr (choices ! (draw mod 3))
       \<and> choices ! (draw mod 3) \<in> set choices
       \<and> map (random_choice choices) [0, 1, 2] = map Inr choices
       \<and> distinct choices"
proof -
  have "map (random_choice choices) [0, 1, 2] = map Inr choices"
    by (simp add: random_choice_def choices_def)
  moreover have "distinct choices"
    using lits_distinct by (simp add: choices_def)
  ultimately show ?thesis
    using assms nth_choices_legal [of draw]
    by (simp add: choose_assistant_move_eq choose_assistant_move_cli_eq random_choice_choices)
qed

theorem fallback_draws_from_choices_witness:
  "extract_candidate [] \<notin> set choices
   \<and> choose_assistant_move str_of_empty (answering []) 1
        \<lparr>user_choice = gu, assistant_choice = [], result = [], history = []\<rparr>
      = Inr \<lparr>user_choice = gu, assistant_choice = choki, result = [], history = []\<rparr>"
proof -
  have h: "extract_candidate [] \<notin> set choices"
    by (simp add: extract_candidate_def py_strip_def py_replace_def marker_def closer_def
          choices_def gu_def choki_def pa_def)
  have "choices ! (1 mod 3) = choki" by (simp add: choices_def)
  with h show ?thesis
    using fallback_draws_from_choices
      [where llm = "answering []" and str_of = str_of_empty and content = "[]"
         and state = "\<lparr>user_choice = gu, assistant_choice = [], result = [], history = []\<rparr>"
         and llm_cli = "answering []" and glob = "[]" and draw = 1
         and cstate = "\<lparr>user_choice = gu, assistant_choice = [], result = [],
                         history = Module_history\<rparr>"]
    by (simp add: answering_def)
qed

text \<open>
  Claim C9. The move of the assistant does not depend on the move of the human: the
  keyword argument \<^verbatim>\<open>user_choice\<close> is passed to the formatting, but the template has no
  placeholder for it, so two states that differ only in the human's move give the same
  prompt and, with the same call of the model and the same draw, the same move of the
  assistant or the same exception.
\<close>

theorem proposer_ignores_human_move:
  "prompt_format u1 h = prompt_format u2 h
   \<and> map_sum id assistant_choice
        (choose_assistant_move str_of llm draw (state\<lparr>user_choice := u1\<rparr>))
      = map_sum id assistant_choice
          (choose_assistant_move str_of llm draw (state\<lparr>user_choice := u2\<rparr>))
   \<and> map_sum id assistant_choice
        (choose_assistant_move_cli str_of llm draw glob (cstate\<lparr>user_choice := u1\<rparr>))
      = map_sum id assistant_choice
          (choose_assistant_move_cli str_of llm draw glob (cstate\<lparr>user_choice := u2\<rparr>))"
  by (simp add: prompt_format_eq choose_assistant_move_eq choose_assistant_move_cli_eq
        split: sum.splits)

text \<open>
  Claim C10. When the answer, once the surrounding white space is stripped, is one of
  the three legal moves with no decoration, the proposer stores that move, whatever the
  draw: the generator is not consulted.
\<close>

theorem bare_move_is_kept:
  assumes "llm (human_label @ prompt_head @ str_of (history state) @ prompt_tail) = Inr content"
    and "llm_cli (human_label @ prompt_head @ str_of glob @ prompt_tail) = Inr content"
    and "py_strip content \<in> set choices"
  shows "choose_assistant_move str_of llm draw state
           = Inr (state\<lparr>assistant_choice := py_strip content\<rparr>)
       \<and> choose_assistant_move_cli str_of llm_cli draw glob cstate
           = Inr (cstate\<lparr>assistant_choice := py_strip content\<rparr>)"
  using assms
  by (simp add: choose_assistant_move_eq choose_assistant_move_cli_eq extract_candidate_bare)

theorem bare_move_is_kept_witness:
  "py_strip [32, 12464, 12540, 10] = gu
   \<and> gu \<in> set choices
   \<and> choose_assistant_move str_of_empty (answering [32, 12464, 12540, 10]) 1
        \<lparr>user_choice = pa, assistant_choice = [], result = [], history = []\<rparr>
      = Inr \<lparr>user_choice = pa, assistant_choice = gu, result = [], history = []\<rparr>"
proof -
  have s: "py_strip [32, 12464, 12540, 10] = gu"
    by (simp add: py_strip_def is_space_def gu_def)
  have g: "gu \<in> set choices" by (simp add: choices_def)
  show ?thesis
    using s g bare_move_is_kept
      [where llm = "answering [32, 12464, 12540, 10]" and str_of = str_of_empty
         and content = "[32, 12464, 12540, 10]"
         and state = "\<lparr>user_choice = pa, assistant_choice = [], result = [], history = []\<rparr>"
         and llm_cli = "answering [32, 12464, 12540, 10]" and glob = "[]" and draw = 1
         and cstate = "\<lparr>user_choice = gu, assistant_choice = [], result = [],
                         history = Module_history\<rparr>"]
    by (simp add: answering_def)
qed

section \<open>The history\<close>

text \<open>
  Claim C5. A call of the resolver extends the history by exactly one record at the end
  and leaves every record already there as it was, in the same order. In the
  command-line variant this holds of the global list; a state that refers to the global
  list (as the main loop builds it) shows that same extended list after the call, and a
  state that refers to another list shows that list unchanged.
\<close>

theorem resolver_appends_one_record:
  "(\<exists>r. history (determine_result_and_update state) = history state @ [r])
   \<and> length (history (determine_result_and_update state)) = Suc (length (history state))
   \<and> take (length (history state)) (history (determine_result_and_update state))
       = history state
   \<and> (\<exists>r. fst (determine_result_and_update_cli glob cstate) = glob @ [r])
   \<and> length (fst (determine_result_and_update_cli glob cstate)) = Suc (length glob)
   \<and> take (length glob) (fst (determine_result_and_update_cli glob cstate)) = glob
   \<and> (\<exists>r. read_history
            (fst (determine_result_and_update_cli glob (cstate\<lparr>history := Module_history\<rparr>)))
            (history (snd (determine_result_and_update_cli glob
                             (cstate\<lparr>history := Module_history\<rparr>))))
          = glob @ [r])
   \<and> read_history
        (fst (determine_result_and_update_cli glob (cstate\<lparr>history := Other_list l\<rparr>)))
        (history (snd (determine_result_and_update_cli glob (cstate\<lparr>history := Other_list l\<rparr>))))
      = l"
  by (simp add: determine_result_and_update_eq determine_result_and_update_cli_eq)

text \<open>
  Claim C4. The record a call of the resolver appends carries the length of the history
  before the call plus one (the same in \<open>add_to_history\<close>). After a sequence of rounds
  played from the empty history, each with a legal move of the human and a call of the
  model that answers, the history has one record per round, the round numbers are
  1, 2, ..., N in order, and the two moves of every record are legal. For the
  command-line loop the same holds with one record per line that is a legal move: a line
  that is not a legal move is refused and leaves no record.
\<close>

theorem rounds_are_numbered_in_order:
  assumes "\<forall>(u, llm, draw) \<in> set rs. u \<in> set choices \<and> (\<forall>p. \<exists>c. llm p = Inr c)"
    and "\<forall>(line, llm, draw) \<in> set ls. line \<noteq> yameru \<and> (\<forall>p. \<exists>c. llm p = Inr c)"
  shows "r_round (last (history (determine_result_and_update state)))
           = int (length (history state)) + 1
       \<and> r_round (last (fst (add_to_history glob u a r))) = int (length glob) + 1
       \<and> (\<exists>h. page_rounds str_of rs [] = Inr h \<and> length h = length rs
               \<and> map r_round h = map int [1..<Suc (length rs)] \<and> legal_records h)
       \<and> (\<exists>h. main_loop str_of (ls @ (yameru, llm0, draw0) # later) [] = Inr h
               \<and> length h = length (filter (\<lambda>x. fst x \<in> set choices) ls)
               \<and> map r_round h = map int [1..<Suc (length h)] \<and> legal_records h)"
proof -
  have e: "well_numbered []" "legal_records []"
    by (simp_all add: well_numbered_def legal_records_def)
  have "\<exists>h. page_rounds str_of rs [] = Inr h \<and> length h = length rs
            \<and> map r_round h = map int [1..<Suc (length rs)] \<and> legal_records h"
    using page_rounds_invariant [OF assms(1) e, of str_of]
    by (auto simp: well_numbered_def)
  moreover have "\<exists>h. main_loop str_of (ls @ (yameru, llm0, draw0) # later) [] = Inr h
            \<and> length h = length (filter (\<lambda>x. fst x \<in> set choices) ls)
            \<and> map r_round h = map int [1..<Suc (length h)] \<and> legal_records h"
    using main_loop_invariant [OF assms(2) e, of str_of llm0 draw0 later]
    by (auto simp: well_numbered_def)
  ultimately show ?thesis
    by (simp add: determine_result_and_update_eq add_to_history_def)
qed

theorem rounds_are_numbered_in_order_witness:
  "(\<exists>h. page_rounds str_of_empty [(gu, answering [], 0)] [] = Inr h \<and> length h = 1
        \<and> map r_round h = [1] \<and> legal_records h)
   \<and> (\<exists>h. main_loop str_of_empty
             [([120], answering [], 0), (pa, answering [], 1), (yameru, answering [], 0)] []
           = Inr h
        \<and> length h = 1 \<and> map r_round h = [1] \<and> legal_records h)"
proof -
  have p: "pa \<noteq> yameru" "[120] \<noteq> yameru" "[120] \<notin> set choices" "pa \<in> set choices"
    "gu \<in> set choices"
    by (simp_all add: pa_def yameru_def choices_def gu_def choki_def)
  show ?thesis
    using rounds_are_numbered_in_order
      [of "[(gu, answering [], 0)]" "[([120], answering [], 0), (pa, answering [], 1)]"
          "\<lparr>user_choice = gu, assistant_choice = gu, result = [], history = []\<rparr>"
          "[]" gu gu "[]" str_of_empty "answering []" 0 "[]"]
      p
    by (auto simp: answering_def)
qed

section \<open>Where the code and the specification part\<close>

text \<open>
  Claim C3, as stated: a value that is not a legal move makes the resolver fail. It does
  not. With the human's move \<^verbatim>\<open>x\<close> (the string of the one character U+0078) against
  rock, the resolver returns normally, stores the sentence for a loss and appends the
  record, in both variants; in the command-line variant the record is in the global
  list, which is also what the state built by the main loop shows.
\<close>

theorem resolver_accepts_illegal_move:
  "[120] \<notin> set choices
   \<and> determine_result_and_update
        \<lparr>user_choice = [120], assistant_choice = gu, result = [], history = []\<rparr>
      = \<lparr>user_choice = [120], assistant_choice = gu, result = res_make,
          history = [\<lparr>r_round = 1, r_you = [120], r_assistant = gu, r_result = res_make\<rparr>]\<rparr>
   \<and> fst (determine_result_and_update_cli []
             \<lparr>user_choice = [120], assistant_choice = gu, result = [],
               history = Module_history\<rparr>)
      = [\<lparr>r_round = 1, r_you = [120], r_assistant = gu, r_result = res_make\<rparr>]
   \<and> result (snd (determine_result_and_update_cli []
                     \<lparr>user_choice = [120], assistant_choice = gu, result = [],
                       history = Module_history\<rparr>))
      = res_make
   \<and> read_history
        (fst (determine_result_and_update_cli []
                \<lparr>user_choice = [120], assistant_choice = gu, result = [],
                  history = Module_history\<rparr>))
        (history (snd (determine_result_and_update_cli []
                         \<lparr>user_choice = [120], assistant_choice = gu, result = [],
                           history = Module_history\<rparr>)))
      = [\<lparr>r_round = 1, r_you = [120], r_assistant = gu, r_result = res_make\<rparr>]"
proof -
  have n: "[120] \<notin> set choices"
    by (simp add: choices_def gu_def choki_def pa_def)
  have "[120] \<noteq> gu" by (simp add: gu_def)
  then have "judge [120] gu = res_make"
    using judge_illegal [of "[120]" gu] n by simp
  with n show ?thesis
    by (simp add: determine_result_and_update_eq determine_result_and_update_cli_eq)
qed

text \<open>
  Claim C3, amended. The resolver has no check of its two moves. When one of them is a
  string that is not a legal move it still returns normally: the result is the tie
  sentence when the two strings are equal and the sentence for a loss otherwise, and one
  record with the two strings as given is appended (in the command-line variant to the
  global list, where a state that refers to that list shows it). Values that are not
  strings are outside this statement.
\<close>

theorem resolver_does_not_validate:
  assumes "user_choice state \<notin> set choices \<or> assistant_choice state \<notin> set choices"
  shows "determine_result_and_update state =
           state\<lparr>result := (if user_choice state = assistant_choice state then res_aiko
                             else res_make),
                 history := history state @
                   [\<lparr>r_round = int (length (history state)) + 1, r_you = user_choice state,
                     r_assistant = assistant_choice state,
                     r_result = (if user_choice state = assistant_choice state then res_aiko
                                 else res_make)\<rparr>]\<rparr>
       \<and> fst (determine_result_and_update_cli glob
                 \<lparr>user_choice = user_choice state, assistant_choice = assistant_choice state,
                   result = result state, history = href\<rparr>) =
           glob @
             [\<lparr>r_round = int (length glob) + 1, r_you = user_choice state,
               r_assistant = assistant_choice state,
               r_result = (if user_choice state = assistant_choice state then res_aiko
                           else res_make)\<rparr>]
       \<and> result (snd (determine_result_and_update_cli glob
                 \<lparr>user_choice = user_choice state, assistant_choice = assistant_choice state,
                   result = result state, history = href\<rparr>)) =
           (if user_choice state = assistant_choice state then res_aiko else res_make)
       \<and> read_history
            (fst (determine_result_and_update_cli glob
                    \<lparr>user_choice = user_choice state,
                      assistant_choice = assistant_choice state,
                      result = result state, history = Module_history\<rparr>))
            (history (snd (determine_result_and_update_cli glob
                    \<lparr>user_choice = user_choice state,
                      assistant_choice = assistant_choice state,
                      result = result state, history = Module_history\<rparr>))) =
           glob @
             [\<lparr>r_round = int (length glob) + 1, r_you = user_choice state,
               r_assistant = assistant_choice state,
               r_result = (if user_choice state = assistant_choice state then res_aiko
                           else res_make)\<rparr>]"
  using judge_illegal [OF assms]
  by (simp add: determine_result_and_update_eq determine_result_and_update_cli_eq)

theorem resolver_does_not_validate_witness:
  "[120] \<notin> set choices
   \<and> result (determine_result_and_update
         \<lparr>user_choice = [120], assistant_choice = [120], result = [], history = []\<rparr>)
      = res_aiko
   \<and> fst (determine_result_and_update_cli []
             \<lparr>user_choice = [120], assistant_choice = [120], result = [],
               history = Module_history\<rparr>)
      = [\<lparr>r_round = 1, r_you = [120], r_assistant = [120], r_result = res_aiko\<rparr>]"
proof -
  have n: "[120] \<notin> set choices"
    by (simp add: choices_def gu_def choki_def pa_def)
  show ?thesis
    using n resolver_does_not_validate
      [where state = "\<lparr>user_choice = [120], assistant_choice = [120], result = [],
                        history = []\<rparr>"
         and glob = "[]" and href = Module_history]
    by simp
qed

text \<open>
  Claim C7, as stated: the extraction is stripping, then the removal of the leading
  marker and of the trailing closing marker (\<open>extract_spec\<close>). On the answer made of
  U+30C1 U+30E7, then \<^verbatim>\<open>]\<close>, then U+30AD (the name of scissors with a closing bracket
  inside), the code gives the legal move scissors, while the removal of a leading and a
  trailing marker leaves the text as it is.
\<close>

theorem extraction_differs_from_spec:
  "extract_candidate [12481, 12519, 93, 12461] = choki
   \<and> extract_spec [12481, 12519, 93, 12461] = [12481, 12519, 93, 12461]
   \<and> extract_candidate [12481, 12519, 93, 12461] \<noteq> extract_spec [12481, 12519, 93, 12461]"
  by (simp add: extract_candidate_filter extract_spec_def py_strip_def is_space_def
        py_replace_def marker_def closer_def remove_leading_def remove_trailing_def choki_def suffix_to_prefix)

text \<open>
  Claim C7, amended. After stripping, the code deletes every occurrence of the marker,
  found from left to right, and then every closing bracket, wherever they stand and not
  only at the two ends. The candidate is exactly the stripped answer with these
  occurrences deleted: a marker that comes after a text \<open>x\<close> free of opening brackets
  is deleted as one in front is, no closing bracket is left in the candidate, and the
  candidate is the stripped answer with characters deleted, nothing else done to it. It
  is the text that the removal of a leading marker and of a trailing closing bracket
  gives whenever that text has no bracket left in it.
\<close>

theorem extraction_deletes_everywhere:
  "extract_candidate content
     = filter (\<lambda>c. c \<noteq> 93) (replace_from marker [] (py_strip content))
   \<and> (91 \<notin> set x \<and> py_strip content = x @ marker @ y
        \<longrightarrow> extract_candidate content
              = filter (\<lambda>c. c \<noteq> 93) x @ filter (\<lambda>c. c \<noteq> 93) (replace_from marker [] y))
   \<and> 93 \<notin> set (extract_candidate content)
   \<and> subseq (extract_candidate content) (py_strip content)
   \<and> (91 \<notin> set (extract_spec content) \<and> 93 \<notin> set (extract_spec content)
        \<longrightarrow> extract_candidate content = extract_spec content)"
proof -
  have eq: "extract_candidate content
              = filter (\<lambda>c. c \<noteq> 93) (replace_from marker [] (py_strip content))"
    by (simp add: extract_candidate_filter py_replace_def marker_def)
  have inner: "91 \<notin> set x \<and> py_strip content = x @ marker @ y
        \<longrightarrow> extract_candidate content
              = filter (\<lambda>c. c \<noteq> 93) x @ filter (\<lambda>c. c \<noteq> 93) (replace_from marker [] y)"
    using replace_marker_interior [of x y] by (simp add: eq)
  have "subseq (py_replace (py_strip content) marker []) (py_strip content)"
    by (rule subseq_py_replace) (simp add: marker_def)
  moreover have "subseq (extract_candidate content) (py_replace (py_strip content) marker [])"
    unfolding extract_candidate_def by (rule subseq_py_replace) (simp add: closer_def)
  ultimately have "subseq (extract_candidate content) (py_strip content)"
    using subseq_order.order_trans by blast
  moreover have "93 \<notin> set (extract_candidate content)"
    by (simp add: extract_candidate_filter)
  ultimately show ?thesis using eq inner extract_agrees by blast
qed

theorem extraction_deletes_everywhere_witness:
  "extract_spec [32, 91, 36984, 25246, 58, 32, 12481, 12519, 12461, 93, 10] = choki
   \<and> extract_candidate [32, 91, 36984, 25246, 58, 32, 12481, 12519, 12461, 93, 10] = choki
   \<and> py_strip [120, 91, 36984, 25246, 58, 32, 12481, 12519, 12461] = [120] @ marker @ choki
   \<and> extract_candidate [120, 91, 36984, 25246, 58, 32, 12481, 12519, 12461] = [120] @ choki"
proof -
  have s: "extract_spec [32, 91, 36984, 25246, 58, 32, 12481, 12519, 12461, 93, 10] = choki"
    by (simp add: extract_spec_def py_strip_def is_space_def marker_def closer_def
          remove_leading_def remove_trailing_def choki_def suffix_to_prefix)
  have b: "91 \<notin> set choki \<and> 93 \<notin> set choki" by (simp add: choki_def)
  have p: "py_strip [120, 91, 36984, 25246, 58, 32, 12481, 12519, 12461]
             = [120] @ marker @ choki"
    by (simp add: py_strip_def is_space_def marker_def choki_def)
  have r: "replace_from marker [] choki = choki"
    by (simp add: marker_def choki_def)
  have "91 \<notin> set (extract_spec [32, 91, 36984, 25246, 58, 32, 12481, 12519, 12461, 93, 10])
          \<and> 93 \<notin> set (extract_spec [32, 91, 36984, 25246, 58, 32, 12481, 12519, 12461, 93, 10])
        \<longrightarrow> extract_candidate [32, 91, 36984, 25246, 58, 32, 12481, 12519, 12461, 93, 10]
            = extract_spec [32, 91, 36984, 25246, 58, 32, 12481, 12519, 12461, 93, 10]"
    using extraction_deletes_everywhere
      [where content = "[32, 91, 36984, 25246, 58, 32, 12481, 12519, 12461, 93, 10]"
         and x = "[]" and y = "[]"]
    by blast
  with s b have one:
    "extract_candidate [32, 91, 36984, 25246, 58, 32, 12481, 12519, 12461, 93, 10] = choki"
    by simp
  have x: "91 \<notin> set [120::nat]" by simp
  have "91 \<notin> set [120::nat]
          \<and> py_strip [120, 91, 36984, 25246, 58, 32, 12481, 12519, 12461]
              = [120] @ marker @ choki
        \<longrightarrow> extract_candidate [120, 91, 36984, 25246, 58, 32, 12481, 12519, 12461]
            = filter (\<lambda>c. c \<noteq> 93) [120]
              @ filter (\<lambda>c. c \<noteq> 93) (replace_from marker [] choki)"
    using extraction_deletes_everywhere
      [where content = "[120, 91, 36984, 25246, 58, 32, 12481, 12519, 12461]"
         and x = "[120]" and y = choki]
    by blast
  with x p have "extract_candidate [120, 91, 36984, 25246, 58, 32, 12481, 12519, 12461]
            = filter (\<lambda>c. c \<noteq> 93) [120]
              @ filter (\<lambda>c. c \<noteq> 93) (replace_from marker [] choki)"
    by blast
  also have "\<dots> = [120] @ choki"
    using b by (auto simp: r filter_id_conv)
  finally have two:
    "extract_candidate [120, 91, 36984, 25246, 58, 32, 12481, 12519, 12461] = [120] @ choki" .
  show ?thesis using s p one two by simp
qed

text \<open>
  Claim C8, as stated: on the empty history, with rock played and the model answering
  \<^verbatim>\<open>[choice: \<close> U+30C1 U+30E7 U+30AD \<^verbatim>\<open>]\<close>, the assistant plays scissors. The marker the
  code deletes is the Japanese one, so the candidate here keeps \<^verbatim>\<open>[choice: \<close> in front,
  is not a legal move, and the move is drawn: with the draw 0 the assistant plays rock,
  the round is a tie and the record appended says so.
\<close>

theorem english_marker_falls_back:
  "extract_candidate [91, 99, 104, 111, 105, 99, 101, 58, 32, 12481, 12519, 12461, 93]
     = [91, 99, 104, 111, 105, 99, 101, 58, 32, 12481, 12519, 12461]
   \<and> app_invoke str_of_empty
        (answering [91, 99, 104, 111, 105, 99, 101, 58, 32, 12481, 12519, 12461, 93]) 0
        \<lparr>user_choice = gu, assistant_choice = [], result = [], history = []\<rparr>
      = Inr \<lparr>user_choice = gu, assistant_choice = gu, result = res_aiko,
              history = [\<lparr>r_round = 1, r_you = gu, r_assistant = gu, r_result = res_aiko\<rparr>]\<rparr>"
proof -
  have e: "extract_candidate [91, 99, 104, 111, 105, 99, 101, 58, 32, 12481, 12519, 12461, 93]
             = [91, 99, 104, 111, 105, 99, 101, 58, 32, 12481, 12519, 12461]"
    by (simp add: extract_candidate_filter py_strip_def is_space_def py_replace_def marker_def)
  have n: "[91, 99, 104, 111, 105, 99, 101, 58, 32, 12481, 12519, 12461] \<notin> set choices"
    by (simp add: choices_def gu_def choki_def pa_def)
  have c: "choices ! (0 mod 3) = gu" by (simp add: choices_def)
  have j: "judge gu gu = res_aiko" by (simp add: judge_def)
  show ?thesis
    using e n c j
    by (simp add: app_invoke_def choose_assistant_move_eq determine_result_and_update_eq
          answering_def)
qed

text \<open>
  Claim C8, amended. On the empty history, with rock played and the model answering the
  name of scissors between the marker of the code (\<^verbatim>\<open>[\<close> U+9078 U+629E \<^verbatim>\<open>: \<close>) and
  \<^verbatim>\<open>]\<close>, the proposer stores scissors whatever the draw, the resolver stores the sentence
  for a win of the human, and the record of round 1 with rock, scissors and that
  sentence is appended.
\<close>

theorem first_round_rock_against_scissors:
  "app_invoke str_of (answering [91, 36984, 25246, 58, 32, 12481, 12519, 12461, 93]) draw
     \<lparr>user_choice = gu, assistant_choice = [], result = [], history = []\<rparr>
   = Inr \<lparr>user_choice = gu, assistant_choice = choki, result = res_kachi,
           history = [\<lparr>r_round = 1, r_you = gu, r_assistant = choki, r_result = res_kachi\<rparr>]\<rparr>
   \<and> choose_assistant_move str_of
        (answering [91, 36984, 25246, 58, 32, 12481, 12519, 12461, 93]) draw
        \<lparr>user_choice = gu, assistant_choice = [], result = [], history = []\<rparr>
      = Inr \<lparr>user_choice = gu, assistant_choice = choki, result = [], history = []\<rparr>"
proof -
  have e: "extract_candidate [91, 36984, 25246, 58, 32, 12481, 12519, 12461, 93] = choki"
    by (simp add: extract_candidate_filter py_strip_def is_space_def py_replace_def marker_def
          choki_def)
  have n: "choki \<in> set choices" by (simp add: choices_def)
  have j: "judge gu choki = res_kachi"
    using lits_distinct by (simp add: judge_def)
  show ?thesis
    using e n j
    by (simp add: app_invoke_def choose_assistant_move_eq determine_result_and_update_eq
          answering_def)
qed

end
